theory Spec2Isabelle
  imports Complex_Main
begin

section \<open>Data model\<close>

text \<open>
  JavaScript numbers that the rate limiter handles are whole numbers: the override columns
  of the users table are integer columns, the tier table holds integer literals,
  \<open>Date.now()\<close> is a whole number of milliseconds and Redis answers INCR and TTL with
  integers. They are modelled as \<open>int\<close>. On such values \<open>Math.floor(a / b)\<close> with
  \<open>b > 0\<close> is \<open>a div b\<close>.

  A JavaScript \<open>Date\<close> is its millisecond time value, or the invalid date whose
  \<open>getTime()\<close> is NaN; every comparison with NaN is false.
\<close>

datatype Date = Date int | InvalidDate

fun getTime_gt :: "Date \<Rightarrow> int \<Rightarrow> bool" where
  "getTime_gt (Date t) n = (t > n)"
| "getTime_gt InvalidDate n = False"

text \<open>
  The three nullable override columns of a user row. A nullable optional field is an
  \<open>option\<close>: \<open>None\<close> is both null and undefined, which \<open>!= null\<close> does not tell apart.
\<close>

record OverrideColumns =
  override_limit_requests :: "int option"
  override_limit_window_seconds :: "int option"
  override_limit_expiry :: "Date option"

text \<open>
  The part of \<open>User\<close> (models/user.ts) that the handlers select and the limiter reads:
  the override columns, \<open>id\<close> (named \<open>user_id\<close> here) and \<open>tier\<close>. The tier is the
  string that the users table holds.
\<close>

record User = OverrideColumns +
  user_id :: string
  tier :: string

text \<open>
  \<open>TierRateLimit\<close> and \<open>RateLimitConfig\<close> (models/config.ts): an object indexed by tier
  name. The map holds the object's own properties.
\<close>

record TierRateLimit =
  requests :: int
  windowSeconds :: int

type_synonym RateLimitConfig = "string \<rightharpoonup> TierRateLimit"

definition rateLimitConfigData :: RateLimitConfig where
  "rateLimitConfigData =
     [''free'' \<mapsto> \<lparr>requests = 10, windowSeconds = 60\<rparr>,
      ''premium'' \<mapsto> \<lparr>requests = 100, windowSeconds = 60\<rparr>]"

datatype RateLimitStatus = Allowed | RateLimited (retryAfterSeconds: int)

text \<open>
  A JavaScript exception thrown while an effect runs is a defect: the effect dies, and
  neither \<open>catchTags\<close> nor \<open>catchAll\<close> sees it. The string names the expression whose
  evaluation throws.
\<close>

datatype defect = TypeError string

text \<open>
  What a call of the limiter ends with when it gives no status: one of the two tagged
  errors of its error channel, or a defect.
\<close>

datatype error = RedisError string | RateLimitConfigError string | Defect defect

text \<open>
  \<open>config[user.tier]\<close> on the registry, an object literal: an own property when there is
  one, else a member inherited from \<open>Object.prototype\<close> when the tier is one of its
  names, else undefined. An inherited member is a function or an object: it is truthy,
  and its \<open>requests\<close> and \<open>windowSeconds\<close> are undefined.
\<close>

definition objectPrototypeNames :: "string list" where
  "objectPrototypeNames =
     [''constructor'', ''__defineGetter__'', ''__defineSetter__'', ''hasOwnProperty'',
      ''__lookupGetter__'', ''__lookupSetter__'', ''isPrototypeOf'', ''propertyIsEnumerable'',
      ''toString'', ''valueOf'', ''__proto__'', ''toLocaleString'']"

datatype tier_lookup = Undefined | Entry TierRateLimit | Inherited

definition lookupTier :: "RateLimitConfig \<Rightarrow> string \<Rightarrow> tier_lookup" where
  "lookupTier config t =
     (case config t of
        Some tierConfig \<Rightarrow> Entry tierConfig
      | None \<Rightarrow> if t \<in> set objectPrototypeNames then Inherited else Undefined)"

section \<open>Rendering whole numbers\<close>

text \<open>
  Template literals and \<open>toString()\<close> render a whole number in decimal, with a leading
  minus sign when it is negative.
\<close>

definition digitChar :: "nat \<Rightarrow> char" where
  "digitChar d = ''0123456789'' ! d"

fun showNat :: "nat \<Rightarrow> string" where
  "showNat n = (if n < 10 then [digitChar n] else showNat (n div 10) @ [digitChar (n mod 10)])"

declare showNat.simps [simp del]

definition showInt :: "int \<Rightarrow> string" where
  "showInt i = (if i < 0 then CHR ''-'' # showNat (nat (- i)) else showNat (nat i))"

text \<open>Reading a decimal rendering back, as Redis does with the argument of EXPIRE.\<close>

definition digitVal :: "char \<Rightarrow> nat" where
  "digitVal c = (of_char c :: nat) - 48"

definition readNat :: "string \<Rightarrow> nat" where
  "readNat s = foldl (\<lambda>a c. 10 * a + digitVal c) 0 s"

definition readInt :: "string \<Rightarrow> int" where
  "readInt s = (case s of [] \<Rightarrow> 0
                | c # r \<Rightarrow> if c = CHR ''-'' then - int (readNat r) else int (readNat s))"

section \<open>The Redis service\<close>

text \<open>
  \<open>RedisService\<close> (services/redis.ts) is injected into the limiter. The two operations
  the limiter calls are fields of a record of state-passing functions over the state
  \<open>'s\<close> of the server. Each fails with the cause of a \<open>RedisError\<close> (\<open>Inl\<close>) or answers.
  \<open>eval\<close> answers \<open>unknown\<close>: a number, or a value of another type named by its
  \<open>typeof\<close>.
\<close>

datatype eval_reply = NumberReply int | OtherReply string

record 's RedisService =
  eval :: "string \<Rightarrow> string list \<Rightarrow> string list \<Rightarrow> 's \<Rightarrow> (string + eval_reply) \<times> 's"
  ttl :: "string \<Rightarrow> 's \<Rightarrow> (string + int) \<times> 's"

text \<open>
  The Lua script that the limiter hands to EVAL:
  \<^verbatim>\<open>local current_count = redis.call('INCR', KEYS[1])\<close>,
  \<^verbatim>\<open>if tonumber(current_count) == 1 then redis.call('EXPIRE', KEYS[1], ARGV[1]) end\<close>,
  \<^verbatim>\<open>return current_count\<close>.
  The string below stands for this text; what the script does is \<open>incrWithExpire\<close> of the
  server model further down.
\<close>

definition incrWithExpireScript :: string where
  "incrWithExpireScript = ''INCR KEYS[1]; if 1 then EXPIRE KEYS[1] ARGV[1]; return count''"

section \<open>The rate limiter (services/rateLimiter.ts)\<close>

text \<open>
  \<open>checkRateLimit\<close> in three parts, in the order of the source. Logging has no effect on
  the result and is left out. The clock is read once and is the argument \<open>nowMillis\<close>.

  The condition of the first \<open>if\<close>: all three override fields present and the expiry
  later than now.
\<close>

definition overrideActive :: "User \<Rightarrow> int \<Rightarrow> bool" where
  "overrideActive user nowMillis =
     (override_limit_requests user \<noteq> None
      \<and> override_limit_window_seconds user \<noteq> None
      \<and> (case override_limit_expiry user of None \<Rightarrow> False
          | Some d \<Rightarrow> getTime_gt d nowMillis))"

text \<open>
  Limit resolution up to and including the check of \<open>windowSeconds\<close>: the pair
  \<open>(limit, windowSeconds)\<close>, or the configuration error. For a tier that finds an
  inherited member, limit and window are undefined: \<open>undefined <= 0\<close> is false, the
  check passes, and building the arguments of EVAL throws at
  \<open>windowSeconds.toString()\<close> before Redis is called. That call dies with Redis
  untouched, which is the third branch of the lookup here.
\<close>

definition effectiveLimits :: "RateLimitConfig \<Rightarrow> int \<Rightarrow> User \<Rightarrow> error + int \<times> int" where
  "effectiveLimits config nowMillis user =
     (case (if overrideActive user nowMillis
            then Inr (the (override_limit_requests user), the (override_limit_window_seconds user))
            else (case lookupTier config (tier user) of
                    Undefined \<Rightarrow>
                      Inl (RateLimitConfigError (''Config missing for tier '' @ tier user))
                  | Inherited \<Rightarrow> Inl (Defect (TypeError ''windowSeconds.toString''))
                  | Entry tierConfig \<Rightarrow> Inr (requests tierConfig, windowSeconds tierConfig)))
      of Inl e \<Rightarrow> Inl e
       | Inr (limit, ws) \<Rightarrow>
           if ws \<le> 0 then Inl (RateLimitConfigError (''Invalid windowSeconds: '' @ showInt ws))
           else Inr (limit, ws))"

definition redisKey :: "string \<Rightarrow> int \<Rightarrow> int \<Rightarrow> string" where
  "redisKey uid ws nowMillis =
     (let nowSeconds = nowMillis div 1000;
          windowStartSeconds = nowSeconds div ws * ws
      in ''rate_limit:'' @ uid @ '':'' @ showInt windowStartSeconds)"

text \<open>The Redis interaction and the decision, from the key derivation to the end.\<close>

definition countAndDecide ::
  "'s RedisService \<Rightarrow> string \<Rightarrow> int \<Rightarrow> int \<Rightarrow> int \<Rightarrow> 's \<Rightarrow> (error + RateLimitStatus) \<times> 's" where
  "countAndDecide redis uid limit ws nowMillis s =
     (let key = redisKey uid ws nowMillis in
      case eval redis incrWithExpireScript [key] [showInt ws] s of
        (Inl cause, s1) \<Rightarrow> (Inl (RedisError cause), s1)
      | (Inr (OtherReply ty), s1) \<Rightarrow>
          (Inl (RedisError (''Unexpected non-number result type from Redis EVAL: '' @ ty)), s1)
      | (Inr (NumberReply currentCount), s1) \<Rightarrow>
          if currentCount > limit then
            (case ttl redis key s1 of
               (Inl cause, s2) \<Rightarrow> (Inl (RedisError cause), s2)
             | (Inr t, s2) \<Rightarrow> (Inr (RateLimited (if t \<ge> 0 then t else ws)), s2))
          else (Inr Allowed, s1))"

definition checkRateLimit ::
  "RateLimitConfig \<Rightarrow> 's RedisService \<Rightarrow> int \<Rightarrow> User \<Rightarrow> 's \<Rightarrow> (error + RateLimitStatus) \<times> 's" where
  "checkRateLimit config redis nowMillis user s =
     (case effectiveLimits config nowMillis user of
        Inl e \<Rightarrow> (Inl e, s)
      | Inr (limit, ws) \<Rightarrow> countAndDecide redis (user_id user) limit ws nowMillis s)"

section \<open>A Redis server holding counters\<close>

text \<open>
  The state of a server: each key that exists holds a counter and, when EXPIRE was
  called on it, a time to live. The script INCRs the key (an absent key counts from 0)
  and sets the time to live when the new value is 1; TTL answers -2 for an absent key and
  -1 for a key without expiry. Time does not pass in this model.
\<close>

type_synonym redis_store = "string \<rightharpoonup> int \<times> int option"

definition incrWithExpire :: "string \<Rightarrow> int \<Rightarrow> redis_store \<Rightarrow> int \<times> redis_store" where
  "incrWithExpire key seconds s =
     (let (c, t) = (case s key of None \<Rightarrow> (0, None) | Some e \<Rightarrow> e);
          current_count = c + 1;
          t' = (if current_count = 1 then Some seconds else t)
      in (current_count, s(key \<mapsto> (current_count, t'))))"

definition store_eval ::
  "string \<Rightarrow> string list \<Rightarrow> string list \<Rightarrow> redis_store \<Rightarrow> (string + eval_reply) \<times> redis_store" where
  "store_eval script keys args s =
     (case (keys, args) of
        ([key], [arg]) \<Rightarrow>
          if script = incrWithExpireScript
          then (let (c, s') = incrWithExpire key (readInt arg) s in (Inr (NumberReply c), s'))
          else (Inl ''ERR unknown script'', s)
      | _ \<Rightarrow> (Inl ''ERR wrong number of arguments'', s))"

definition store_ttl :: "string \<Rightarrow> redis_store \<Rightarrow> (string + int) \<times> redis_store" where
  "store_ttl key s =
     (case s key of None \<Rightarrow> (Inr (- 2), s)
      | Some (c, None) \<Rightarrow> (Inr (- 1), s)
      | Some (c, Some t) \<Rightarrow> (Inr t, s))"

definition storeService :: "redis_store RedisService" where
  "storeService = \<lparr>eval = store_eval, ttl = store_ttl\<rparr>"

text \<open>A sequence of calls for one user, one after the other, at the given clock readings.\<close>

fun runChecks ::
  "RateLimitConfig \<Rightarrow> 's RedisService \<Rightarrow> User \<Rightarrow> int list \<Rightarrow> 's \<Rightarrow> (error + RateLimitStatus) list \<times> 's" where
  "runChecks config redis user [] s = ([], s)"
| "runChecks config redis user (now # nows) s =
     (case checkRateLimit config redis now user s of
        (r, s1) \<Rightarrow> (case runChecks config redis user nows s1 of (rs, s2) \<Rightarrow> (r # rs, s2)))"

definition allowedCount :: "(error + RateLimitStatus) list \<Rightarrow> nat" where
  "allowedCount rs = length (filter (\<lambda>r. r = Inr Allowed) rs)"

section \<open>The HTTP handlers (index.ts)\<close>

text \<open>
  Values that handlers build and return: numbers, strings, booleans, dates, null and
  objects (a list of fields in the order they are written).
\<close>

datatype js_value =
  JNum int | JStr string | JBool bool | JDate Date | JNull | JObj "(string \<times> js_value) list"

text \<open>
  What awaiting a Supabase query gives: the promise is rejected, or it resolves to
  \<open>{data, error}\<close>.
\<close>

datatype 'a supabase_result = Rejected string | Resolved "'a option" "string option"

text \<open>
  A row of the users table as the query answers it: JSON, so the expiry column is null
  or an ISO string, not a \<open>Date\<close>.
\<close>

record UserRow =
  row_id :: string
  row_tier :: string
  row_override_limit_requests :: "int option"
  row_override_limit_window_seconds :: "int option"
  row_override_limit_expiry :: "string option"

text \<open>The tagged errors a handler's generator can fail with.\<close>

datatype handler_error = SupabaseError string | NotFoundError string | LimiterError error

text \<open>
  How the effect of a handler ends: it returns a value, it fails with a tagged error, or
  it dies with a defect.
\<close>

datatype handler_exit = Returned js_value | Failed handler_error | Died defect

subsection \<open>GET /api/check\<close>

text \<open>
  \<open>const user = userData as User\<close> hands the row to \<open>checkRateLimit\<close> as it is. With an
  expiry string in the row, \<open>user.override_limit_expiry.getTime()\<close> throws: in the first
  condition when both numbers are present, else in the condition of the first log
  statement of the tier branch, which calls it whenever the string is truthy (not empty).
  Either happens before the registry and Redis are used. Otherwise the row reads like a
  user whose override is not active.
\<close>

definition castUser :: "UserRow \<Rightarrow> defect + User" where
  "castUser row =
     (case row_override_limit_expiry row of
        None \<Rightarrow>
          Inr \<lparr>override_limit_requests = row_override_limit_requests row,
               override_limit_window_seconds = row_override_limit_window_seconds row,
               override_limit_expiry = None, user_id = row_id row, tier = row_tier row\<rparr>
      | Some str \<Rightarrow>
          if (row_override_limit_requests row \<noteq> None
              \<and> row_override_limit_window_seconds row \<noteq> None) \<or> str \<noteq> []
          then Inl (TypeError ''user.override_limit_expiry.getTime'')
          else Inr \<lparr>override_limit_requests = row_override_limit_requests row,
                    override_limit_window_seconds = row_override_limit_window_seconds row,
                    override_limit_expiry = None, user_id = row_id row, tier = row_tier row\<rparr>)"

text \<open>
  The generator of \<open>checkRateLimitHandler\<close>; \<open>fetched\<close> is what the Supabase query gave.
  The status becomes the object that the handler returns.
\<close>

definition checkRateLimitHandler_gen ::
  "RateLimitConfig \<Rightarrow> 's RedisService \<Rightarrow> int \<Rightarrow> string \<Rightarrow> UserRow supabase_result \<Rightarrow> 's
     \<Rightarrow> handler_exit \<times> 's" where
  "checkRateLimitHandler_gen config redis nowMillis userId fetched s =
     (case fetched of
        Rejected e \<Rightarrow> (Failed (SupabaseError e), s)
      | Resolved userData userError \<Rightarrow>
          (case userError of
             Some e \<Rightarrow> (Failed (SupabaseError e), s)
           | None \<Rightarrow>
               (case userData of
                  None \<Rightarrow> (Failed (NotFoundError (''User '' @ userId @ '' not found'')), s)
                | Some row \<Rightarrow>
                    (case castUser row of
                       Inl d \<Rightarrow> (Died d, s)
                     | Inr user \<Rightarrow>
                         (case checkRateLimit config redis nowMillis user s of
                            (Inl (Defect d), s1) \<Rightarrow> (Died d, s1)
                          | (Inl (RedisError c), s1) \<Rightarrow> (Failed (LimiterError (RedisError c)), s1)
                          | (Inl (RateLimitConfigError r), s1) \<Rightarrow>
                              (Failed (LimiterError (RateLimitConfigError r)), s1)
                          | (Inr Allowed, s1) \<Rightarrow>
                              (Returned (JObj [(''statusCode'', JNum 200),
                                               (''status'', JStr ''ALLOWED'')]), s1)
                          | (Inr (RateLimited n), s1) \<Rightarrow>
                              (Returned (JObj [(''statusCode'', JNum 429),
                                               (''status'', JStr ''NOT ALLOWED''),
                                               (''RetryAfter'', JStr (showInt n))]), s1))))))"

text \<open>
  The \<open>catchTags\<close> of \<open>checkRateLimitHandler\<close>. Each branch is written
  \<open>Effect.log...(...).pipe(Effect.fail(Http.response.notFound({body: {error: ...}})))\<close>, or
  the same with \<open>internalServerError\<close>. The imported module has no member \<open>response\<close>,
  so evaluating the argument of \<open>pipe\<close> throws (and \<open>pipe\<close> would be handed an effect where
  it calls a function): the branch answers nothing and the handler dies. A defect of the
  limiter is not a tagged error and reaches no branch.
\<close>

fun checkRateLimitHandler_catchTags :: "handler_error \<Rightarrow> defect" where
  "checkRateLimitHandler_catchTags (NotFoundError message) = TypeError ''Http.response.notFound''"
| "checkRateLimitHandler_catchTags (SupabaseError e) =
     TypeError ''Http.response.internalServerError''"
| "checkRateLimitHandler_catchTags (LimiterError (RedisError c)) =
     TypeError ''Http.response.internalServerError''"
| "checkRateLimitHandler_catchTags (LimiterError (RateLimitConfigError r)) =
     TypeError ''Http.response.internalServerError''"
| "checkRateLimitHandler_catchTags (LimiterError (Defect d)) = d"

definition checkRateLimitHandler ::
  "RateLimitConfig \<Rightarrow> 's RedisService \<Rightarrow> int \<Rightarrow> string \<Rightarrow> UserRow supabase_result \<Rightarrow> 's
     \<Rightarrow> handler_exit \<times> 's" where
  "checkRateLimitHandler config redis nowMillis userId fetched s =
     (case checkRateLimitHandler_gen config redis nowMillis userId fetched s of
        (Failed e, s1) \<Rightarrow> (Died (checkRateLimitHandler_catchTags e), s1)
      | (Returned v, s1) \<Rightarrow> (Returned v, s1)
      | (Died d, s1) \<Rightarrow> (Died d, s1))"

subsection \<open>GET /rate-limit-stats\<close>

text \<open>
  The \<open>catchTags\<close> of \<open>testCombinedLogicHandler\<close>, written the same way with bare strings
  for bodies (\<open>"DB Error"\<close>, the message, \<open>"Cache Error"\<close>, \<open>"Config Error"\<close>): every
  branch throws as well.
\<close>

fun testCombinedLogicHandler_catchTags :: "handler_error \<Rightarrow> defect" where
  "testCombinedLogicHandler_catchTags (SupabaseError e) =
     TypeError ''Http.response.internalServerError''"
| "testCombinedLogicHandler_catchTags (NotFoundError message) =
     TypeError ''Http.response.notFound''"
| "testCombinedLogicHandler_catchTags (LimiterError (RedisError c)) =
     TypeError ''Http.response.internalServerError''"
| "testCombinedLogicHandler_catchTags (LimiterError (RateLimitConfigError r)) =
     TypeError ''Http.response.internalServerError''"
| "testCombinedLogicHandler_catchTags (LimiterError (Defect d)) = d"

subsection \<open>PUT /users/:userId/rate-limits\<close>

text \<open>
  The decoded body has a key exactly for each number or date that the request supplied
  (\<open>optionalWith\<close> with \<open>nullable\<close> decodes null to a missing key), so it is an
  \<open>OverrideColumns\<close> whose \<open>None\<close> is a missing key. \<open>updateData\<close> gets the supplied
  fields and the timestamp \<open>new Date().toISOString()\<close>, here \<open>nowIso\<close>.
\<close>

definition updateData :: "OverrideColumns \<Rightarrow> string \<Rightarrow> (string \<times> js_value) list" where
  "updateData b nowIso =
     (case override_limit_requests b of
        Some v \<Rightarrow> [(''override_limit_requests'', JNum v)] | None \<Rightarrow> [])
     @ (case override_limit_window_seconds b of
          Some v \<Rightarrow> [(''override_limit_window_seconds'', JNum v)] | None \<Rightarrow> [])
     @ (case override_limit_expiry b of
          Some d \<Rightarrow> [(''override_limit_expiry'', JDate d)] | None \<Rightarrow> [])
     @ [(''updated_at'', JStr nowIso)]"

text \<open>
  The generator of \<open>updateUserRateLimitHandler\<close>, a function of \<open>{body, query}\<close>. Its
  first statement logs \<open>query.userId\<close>: when \<open>query\<close> is undefined (\<open>None\<close>) it throws and
  the handler dies before \<open>updateData\<close> is built. With a query object, \<open>query.userId\<close> is
  the id. \<open>update\<close> is the update statement of the user store (update, filter by id,
  select the three columns, single row), over the state \<open>'db\<close> of the store.
\<close>

definition updateUserRateLimitHandler_gen ::
  "((string \<times> js_value) list \<Rightarrow> string \<Rightarrow> 'db \<Rightarrow> OverrideColumns supabase_result \<times> 'db)
     \<Rightarrow> OverrideColumns \<Rightarrow> string option \<Rightarrow> string \<Rightarrow> 'db \<Rightarrow> handler_exit \<times> 'db" where
  "updateUserRateLimitHandler_gen update b query nowIso db =
     (case query of
        None \<Rightarrow> (Died (TypeError ''query.userId''), db)
      | Some userId \<Rightarrow>
          (case update (updateData b nowIso) userId db of
             (Rejected e, db1) \<Rightarrow> (Failed (SupabaseError e), db1)
           | (Resolved updatedUser err, db1) \<Rightarrow>
               (case err of
                  Some e \<Rightarrow> (Failed (SupabaseError e), db1)
                | None \<Rightarrow>
                    (case updatedUser of
                       None \<Rightarrow> (Failed (NotFoundError (''User '' @ userId @ '' not found'')), db1)
                     | Some u \<Rightarrow>
                         (Returned (JObj [(''success'', JBool True),
                                          (''userId'', JStr userId),
                                          (''updated'', JObj
                                             [(''override_limit_requests'',
                                                 case override_limit_requests u of
                                                   Some v \<Rightarrow> JNum v | None \<Rightarrow> JNull),
                                              (''override_limit_window_seconds'',
                                                 case override_limit_window_seconds u of
                                                   Some v \<Rightarrow> JNum v | None \<Rightarrow> JNull),
                                              (''override_limit_expiry'',
                                                 case override_limit_expiry u of
                                                   Some d \<Rightarrow> JDate d | None \<Rightarrow> JNull)])]),
                          db1)))))"

text \<open>
  The \<open>catchTags\<close> of \<open>updateUserRateLimitHandler\<close> for its two tags, and its \<open>catchAll\<close>
  for any other error: written like those of the other handlers, and every branch
  throws as they do.
\<close>

fun updateUserRateLimitHandler_catchTags :: "handler_error \<Rightarrow> defect" where
  "updateUserRateLimitHandler_catchTags (NotFoundError message) =
     TypeError ''Http.response.notFound''"
| "updateUserRateLimitHandler_catchTags (SupabaseError e) =
     TypeError ''Http.response.internalServerError''"
| "updateUserRateLimitHandler_catchTags (LimiterError e) =
     TypeError ''Http.response.internalServerError''"

definition updateUserRateLimitHandler ::
  "((string \<times> js_value) list \<Rightarrow> string \<Rightarrow> 'db \<Rightarrow> OverrideColumns supabase_result \<times> 'db)
     \<Rightarrow> OverrideColumns \<Rightarrow> string option \<Rightarrow> string \<Rightarrow> 'db \<Rightarrow> handler_exit \<times> 'db" where
  "updateUserRateLimitHandler update b query nowIso db =
     (case updateUserRateLimitHandler_gen update b query nowIso db of
        (Failed e, db1) \<Rightarrow> (Died (updateUserRateLimitHandler_catchTags e), db1)
      | (Returned v, db1) \<Rightarrow> (Returned v, db1)
      | (Died d, db1) \<Rightarrow> (Died d, db1))"


subsection \<open>A user store holding rows\<close>

text \<open>
  The users table as the update statement sees it: for each user id the override columns
  and \<open>updated_at\<close>. The statement sets each column of the patch on the row with the
  given id and answers the row's override columns; with no such row, \<open>single()\<close> answers
  an error.
\<close>

type_synonym users_table = "string \<rightharpoonup> OverrideColumns \<times> string"

fun setColumn :: "OverrideColumns \<times> string \<Rightarrow> string \<times> js_value \<Rightarrow> OverrideColumns \<times> string" where
  "setColumn (r, u) (col, v) =
     (if col = ''override_limit_requests'' then
        (case v of JNum n \<Rightarrow> (r\<lparr>override_limit_requests := Some n\<rparr>, u)
         | JNull \<Rightarrow> (r\<lparr>override_limit_requests := None\<rparr>, u) | _ \<Rightarrow> (r, u))
      else if col = ''override_limit_window_seconds'' then
        (case v of JNum n \<Rightarrow> (r\<lparr>override_limit_window_seconds := Some n\<rparr>, u)
         | JNull \<Rightarrow> (r\<lparr>override_limit_window_seconds := None\<rparr>, u) | _ \<Rightarrow> (r, u))
      else if col = ''override_limit_expiry'' then
        (case v of JDate d \<Rightarrow> (r\<lparr>override_limit_expiry := Some d\<rparr>, u)
         | JNull \<Rightarrow> (r\<lparr>override_limit_expiry := None\<rparr>, u) | _ \<Rightarrow> (r, u))
      else if col = ''updated_at'' then
        (case v of JStr t \<Rightarrow> (r, t) | _ \<Rightarrow> (r, u))
      else (r, u))"

definition tableUpdate ::
  "(string \<times> js_value) list \<Rightarrow> string \<Rightarrow> users_table \<Rightarrow> OverrideColumns supabase_result \<times> users_table" where
  "tableUpdate patch userId t =
     (case t userId of
        None \<Rightarrow> (Resolved None (Some ''PGRST116''), t)
      | Some row \<Rightarrow>
          (let row' = foldl setColumn row patch
           in (Resolved (Some (fst row')) None, t(userId \<mapsto> row'))))"

section \<open>Counters and sample inputs\<close>

text \<open>The counter that a key holds; an absent key counts as 0.\<close>

definition counterAt :: "redis_store \<Rightarrow> string \<Rightarrow> int" where
  "counterAt s key = (case s key of None \<Rightarrow> 0 | Some (c, t) \<Rightarrow> c)"

text \<open>A free-tier user with an override of 2 requests per 30 seconds that expires at 300 s.\<close>

definition u2 :: User where
  "u2 = \<lparr>override_limit_requests = Some 2, override_limit_window_seconds = Some 30,
          override_limit_expiry = Some (Date 300000), user_id = ''u2'', tier = ''free''\<rparr>"

text \<open>Users without an override and with a complete one.\<close>

definition noOverride :: "string \<Rightarrow> string \<Rightarrow> User" where
  "noOverride uid t = \<lparr>override_limit_requests = None, override_limit_window_seconds = None,
          override_limit_expiry = None, user_id = uid, tier = t\<rparr>"

definition withOverride :: "string \<Rightarrow> string \<Rightarrow> int \<Rightarrow> int \<Rightarrow> Date \<Rightarrow> User" where
  "withOverride uid t r w e = \<lparr>override_limit_requests = Some r, override_limit_window_seconds = Some w,
          override_limit_expiry = Some e, user_id = uid, tier = t\<rparr>"

text \<open>
  A server on which the key is lost between the increment and the TTL read: TTL answers
  -2 and the key is gone.
\<close>

definition lostKeyService :: "redis_store RedisService" where
  "lostKeyService =
     \<lparr>eval = store_eval, ttl = (\<lambda>key s. (Inr (- 2), s(key := None)))\<rparr>"

text \<open>A server that cannot be reached: every operation fails.\<close>

definition downService :: "redis_store RedisService" where
  "downService =
     \<lparr>eval = (\<lambda>script keys args s. (Inl ''ECONNREFUSED'', s)),
      ttl = (\<lambda>key s. (Inl ''ECONNREFUSED'', s))\<rparr>"

text \<open>Rows as the user store answers them: without override, and with a complete one.\<close>

definition plainRow :: "string \<Rightarrow> string \<Rightarrow> UserRow" where
  "plainRow uid t = \<lparr>row_id = uid, row_tier = t, row_override_limit_requests = None,
          row_override_limit_window_seconds = None, row_override_limit_expiry = None\<rparr>"

definition overrideRow :: "string \<Rightarrow> string \<Rightarrow> int \<Rightarrow> int \<Rightarrow> string \<Rightarrow> UserRow" where
  "overrideRow uid t r w str = \<lparr>row_id = uid, row_tier = t, row_override_limit_requests = Some r,
          row_override_limit_window_seconds = Some w, row_override_limit_expiry = Some str\<rparr>"

text \<open>
  The row that the update statement leaves when the body \<open>b\<close> is written over \<open>row\<close>, and
  the object that the handler answers under \<open>updated\<close> for given columns.
\<close>

definition patchedRow :: "OverrideColumns \<Rightarrow> OverrideColumns \<Rightarrow> OverrideColumns" where
  "patchedRow b row =
     \<lparr>override_limit_requests =
        (case override_limit_requests b of Some v \<Rightarrow> Some v | None \<Rightarrow> override_limit_requests row),
      override_limit_window_seconds =
        (case override_limit_window_seconds b of Some v \<Rightarrow> Some v
         | None \<Rightarrow> override_limit_window_seconds row),
      override_limit_expiry =
        (case override_limit_expiry b of Some d \<Rightarrow> Some d | None \<Rightarrow> override_limit_expiry row)\<rparr>"

definition updatedObject :: "OverrideColumns \<Rightarrow> js_value" where
  "updatedObject u =
     JObj [(''override_limit_requests'',
              case override_limit_requests u of Some v \<Rightarrow> JNum v | None \<Rightarrow> JNull),
           (''override_limit_window_seconds'',
              case override_limit_window_seconds u of Some v \<Rightarrow> JNum v | None \<Rightarrow> JNull),
           (''override_limit_expiry'',
              case override_limit_expiry u of Some d \<Rightarrow> JDate d | None \<Rightarrow> JNull)]"

section \<open>Decimal rendering is injective\<close>


lemma digitChar_inj: "a < 10 \<Longrightarrow> b < 10 \<Longrightarrow> digitChar a = digitChar b \<Longrightarrow> a = b"
  unfolding digitChar_def
  by (subst (asm) nth_eq_iff_index_eq) auto

lemma digit_cases: "d < 10 \<Longrightarrow> d \<in> {0, 1, 2, 3, 4, 5, 6, 7, 8, 9::nat}"
  by auto

lemma digitVal_digitChar: "d < 10 \<Longrightarrow> digitVal (digitChar d) = d"
  using digit_cases [of d] by (auto simp: digitVal_def digitChar_def)

lemma digitChar_not_minus: "d < 10 \<Longrightarrow> digitChar d \<noteq> CHR ''-''"
  using digit_cases [of d] by (auto simp: digitChar_def)

lemma readNat_snoc: "readNat (s @ [c]) = 10 * readNat s + digitVal c"
  by (simp add: readNat_def)

lemma readNat_showNat: "readNat (showNat n) = n"
proof (induction n rule: showNat.induct)
  case (1 n)
  show ?case
  proof (cases "n < 10")
    case True
    then show ?thesis by (subst showNat.simps) (simp add: readNat_def digitVal_digitChar)
  next
    case False
    then have "readNat (showNat n) = 10 * readNat (showNat (n div 10)) + digitVal (digitChar (n mod 10))"
      by (subst showNat.simps) (simp add: readNat_snoc)
    also have "\<dots> = 10 * (n div 10) + n mod 10"
      using 1 False by (simp add: digitVal_digitChar)
    finally show ?thesis by simp
  qed
qed

lemma showNat_nonempty: "showNat n \<noteq> []"
  by (subst showNat.simps) simp

lemma hd_showNat_not_minus: "hd (showNat n) \<noteq> CHR ''-''"
proof (induction n rule: showNat.induct)
  case (1 n)
  show ?case
  proof (cases "n < 10")
    case True
    then show ?thesis by (subst showNat.simps) (simp add: digitChar_not_minus)
  next
    case False
    then have "hd (showNat n) = hd (showNat (n div 10))"
      by (subst showNat.simps) (simp add: showNat_nonempty)
    then show ?thesis using 1 False by simp
  qed
qed

lemma readInt_showInt: "readInt (showInt i) = i"
proof (cases "i < 0")
  case True
  then show ?thesis by (simp add: readInt_def showInt_def readNat_showNat)
next
  case False
  obtain c r where cr: "showNat (nat i) = c # r"
    using showNat_nonempty [of "nat i"] by (cases "showNat (nat i)") auto
  have "c \<noteq> CHR ''-''" using hd_showNat_not_minus [of "nat i"] cr by simp
  then have "readInt (showNat (nat i)) = int (readNat (showNat (nat i)))"
    using cr by (simp add: readInt_def)
  then show ?thesis using False by (simp add: showInt_def readNat_showNat)
qed

lemma showInt_inj: "showInt a = showInt b \<longleftrightarrow> a = b"
  by (metis readInt_showInt)

lemma redisKey_eq_iff:
  "redisKey uid ws a = redisKey uid ws b \<longleftrightarrow> a div 1000 div ws * ws = b div 1000 div ws * ws"
  by (simp add: redisKey_def Let_def showInt_inj)

lemma floor_nested:
  assumes "0 < ws"
  shows "\<lfloor>real_of_int a / 1000 / real_of_int ws\<rfloor> = a div 1000 div ws"
proof -
  have "real_of_int a / 1000 / real_of_int ws = real_of_int a / real_of_int (1000 * ws)"
    by simp
  then have "\<lfloor>real_of_int a / 1000 / real_of_int ws\<rfloor> = a div (1000 * ws)"
    by (simp only: floor_divide_of_int_eq)
  also have "\<dots> = a div 1000 div ws"
    using assms by (simp add: zdiv_zmult2_eq)
  finally show ?thesis .
qed

lemma effectiveLimits_window_pos:
  "effectiveLimits config now user = Inr (limit, ws) \<Longrightarrow> 0 < ws"
  by (auto simp: effectiveLimits_def
        split: if_splits option.splits sum.splits prod.splits tier_lookup.splits)

lemma checkRateLimit_resolved:
  "effectiveLimits config now user = Inr (limit, ws) \<Longrightarrow>
   checkRateLimit config redis now user s = countAndDecide redis (user_id user) limit ws now s"
  by (simp add: checkRateLimit_def)

lemma countAndDecide_allowed:
  assumes "eval redis incrWithExpireScript [redisKey uid ws now] [showInt ws] s = (Inr (NumberReply c), s1)"
    and "c \<le> limit"
  shows "countAndDecide redis uid limit ws now s = (Inr Allowed, s1)"
  using assms by (simp add: countAndDecide_def Let_def)

lemma countAndDecide_over:
  assumes "eval redis incrWithExpireScript [redisKey uid ws now] [showInt ws] s = (Inr (NumberReply c), s1)"
    and "limit < c"
  shows "countAndDecide redis uid limit ws now s =
     (case ttl redis (redisKey uid ws now) s1 of
        (Inl cause, s2) \<Rightarrow> (Inl (RedisError cause), s2)
      | (Inr t, s2) \<Rightarrow> (Inr (RateLimited (if 0 \<le> t then t else ws)), s2))"
  using assms by (simp add: countAndDecide_def Let_def)

lemma store_eval_script:
  "eval storeService incrWithExpireScript [key] [showInt ws] s =
     (Inr (NumberReply (fst (incrWithExpire key ws s))), snd (incrWithExpire key ws s))"
  by (simp add: storeService_def store_eval_def readInt_showInt split: prod.splits)

section \<open>At most limit calls are allowed per bucket\<close>

lemma incrWithExpire_count:
  "fst (incrWithExpire key seconds s) = counterAt s key + 1"
  "counterAt (snd (incrWithExpire key seconds s)) key = counterAt s key + 1"
  by (auto simp: incrWithExpire_def counterAt_def Let_def split: option.splits prod.splits)

lemma incrWithExpire_frame:
  "k \<noteq> key \<Longrightarrow> snd (incrWithExpire key seconds s) k = s k"
  "dom (snd (incrWithExpire key seconds s)) = insert key (dom s)"
  by (auto simp: incrWithExpire_def Let_def split: option.splits prod.splits)

lemma store_ttl_answers: "\<exists>t. ttl storeService key s = (Inr t, s)"
  by (auto simp: storeService_def store_ttl_def split: option.splits)

lemma countAndDecide_store:
  "countAndDecide storeService uid limit ws now s =
     (if counterAt s (redisKey uid ws now) + 1 \<le> limit then Inr Allowed
      else Inr (RateLimited (case fst (ttl storeService (redisKey uid ws now)
                                   (snd (incrWithExpire (redisKey uid ws now) ws s))) of
                               Inr t \<Rightarrow> if 0 \<le> t then t else ws | Inl c \<Rightarrow> ws)),
      snd (incrWithExpire (redisKey uid ws now) ws s))"
proof (cases "counterAt s (redisKey uid ws now) + 1 \<le> limit")
  case True
  then show ?thesis
    using countAndDecide_allowed [OF store_eval_script, of uid ws now s limit]
    by (simp add: incrWithExpire_count)
next
  case False
  obtain t where t: "ttl storeService (redisKey uid ws now) (snd (incrWithExpire (redisKey uid ws now) ws s))
      = (Inr t, snd (incrWithExpire (redisKey uid ws now) ws s))"
    using store_ttl_answers by blast
  from False show ?thesis
    using countAndDecide_over [OF store_eval_script, of limit uid ws now s]
    by (simp add: incrWithExpire_count t)
qed

lemma checkRateLimit_store_step:
  assumes "effectiveLimits config now user = Inr (limit, ws)"
    and "redisKey (user_id user) ws now = key"
  shows "fst (checkRateLimit config storeService now user s) = Inr Allowed
           \<longleftrightarrow> counterAt s key + 1 \<le> limit"
    and "counterAt (snd (checkRateLimit config storeService now user s)) key = counterAt s key + 1"
  using assms
  by (simp_all add: checkRateLimit_resolved countAndDecide_store incrWithExpire_count)

lemma runChecks_allowedCount:
  assumes "\<forall>now \<in> set nows. effectiveLimits config now user = Inr (limit, ws)
             \<and> redisKey (user_id user) ws now = key"
  shows "allowedCount (fst (runChecks config storeService user nows s))
           = min (length nows) (nat (limit - counterAt s key))"
  using assms
proof (induction nows arbitrary: s)
  case Nil
  then show ?case by (simp add: allowedCount_def)
next
  case (Cons now nows)
  obtain r s1 where step: "checkRateLimit config storeService now user s = (r, s1)"
    by (cases "checkRateLimit config storeService now user s")
  obtain rs s2 where rest: "runChecks config storeService user nows s1 = (rs, s2)"
    by (cases "runChecks config storeService user nows s1")
  have eff: "effectiveLimits config now user = Inr (limit, ws)"
    and key: "redisKey (user_id user) ws now = key"
    using Cons.prems by simp_all
  have r: "r = Inr Allowed \<longleftrightarrow> counterAt s key + 1 \<le> limit"
    using checkRateLimit_store_step(1) [OF eff key, of s] step by simp
  have c1: "counterAt s1 key = counterAt s key + 1"
    using checkRateLimit_store_step(2) [OF eff key, of s] step by simp
  have "allowedCount rs = min (length nows) (nat (limit - counterAt s1 key))"
    using Cons.IH [of s1] Cons.prems rest by simp
  then have rs: "allowedCount rs = min (length nows) (nat (limit - counterAt s key - 1))"
    by (simp add: c1 algebra_simps)
  have "allowedCount (r # rs) = (if r = Inr Allowed then 1 else 0) + allowedCount rs"
    by (simp add: allowedCount_def)
  then have "allowedCount (r # rs) = min (length (now # nows)) (nat (limit - counterAt s key))"
    using r rs by (auto simp: min_def)
  then show ?case by (simp add: step rest)
qed

text \<open>
  Claim C1. For a fixed user and a fixed effective pair \<open>(limit, windowSeconds)\<close> with
  \<open>limit \<ge> 1\<close> and \<open>windowSeconds \<ge> 1\<close>, in every sequence of \<open>checkRateLimit\<close> calls whose
  key is the same bucket key, against a server on which that key starts absent (counter 0)
  and each call increments it by 1, the number of calls that return \<open>Allowed\<close> is at most
  \<open>limit\<close>.
\<close>

theorem C1_allowed_never_exceeds_limit:
  assumes "1 \<le> limit" and "1 \<le> ws"
    and "\<forall>now \<in> set nows. effectiveLimits config now user = Inr (limit, ws)
             \<and> redisKey (user_id user) ws now = key"
    and "s key = None"
  shows "int (allowedCount (fst (runChecks config storeService user nows s))) \<le> limit"
proof -
  have "counterAt s key = 0" using assms(4) by (simp add: counterAt_def)
  then have "allowedCount (fst (runChecks config storeService user nows s))
               = min (length nows) (nat limit)"
    using runChecks_allowedCount [OF assms(3), of s] by simp
  then show ?thesis using assms(1) by simp
qed

lemmas eval_defs = effectiveLimits_def overrideActive_def redisKey_def showInt_def showNat.simps
  digitChar_def checkRateLimit_def countAndDecide_def storeService_def store_eval_def
  readInt_def readNat_def digitVal_def incrWithExpire_def store_ttl_def allowedCount_def
  rateLimitConfigData_def lookupTier_def objectPrototypeNames_def Let_def

lemma u2_eff: "effectiveLimits rateLimitConfigData now u2 = (if now < 300000 then Inr (2, 30) else Inr (10, 60))"
  by (simp add: eval_defs u2_def)

lemma u2_key: "redisKey (user_id u2) 30 29999 = ''rate_limit:u2:0''"
  by (simp add: eval_defs u2_def)

theorem C1_witness:
  "(1::int) \<le> 2 \<and> (1::int) \<le> 30
   \<and> list_all (\<lambda>now. effectiveLimits rateLimitConfigData now u2 = Inr (2, 30)
         \<and> redisKey (user_id u2) 30 now = ''rate_limit:u2:0'') [0, 400, 900, 29999]
   \<and> (Map.empty :: redis_store) ''rate_limit:u2:0'' = None
   \<and> int (allowedCount (fst (runChecks rateLimitConfigData storeService u2 [0, 400, 900, 29999] Map.empty))) \<le> 2
   \<and> fst (runChecks rateLimitConfigData storeService u2 [0, 400, 900, 29999] Map.empty)
        = [Inr Allowed, Inr Allowed, Inr (RateLimited 30), Inr (RateLimited 30)]"
proof -
  have h: "\<forall>now \<in> set [0, 400, 900, 29999]. effectiveLimits rateLimitConfigData now u2 = Inr (2, 30)
         \<and> redisKey (user_id u2) 30 now = ''rate_limit:u2:0''"
    by (simp add: eval_defs u2_def)
  have e: "(Map.empty :: redis_store) ''rate_limit:u2:0'' = None" by simp
  have r: "fst (runChecks rateLimitConfigData storeService u2 [0, 400, 900, 29999] Map.empty)
        = [Inr Allowed, Inr Allowed, Inr (RateLimited 30), Inr (RateLimited 30)]"
    by (simp add: eval_defs u2_def)
  show ?thesis
    using C1_allowed_never_exceeds_limit [OF _ _ h e] h r by (simp add: list_all_iff)
qed

section \<open>The comparison, the retry time and the key\<close>

text \<open>
  Claim C2. The comparison with the limit is strict and on the value after the
  increment. When the script answers the number \<open>count\<close>: with \<open>count \<le> limit\<close> (so
  with \<open>count = limit\<close>) the call returns \<open>Allowed\<close>; with \<open>count > limit\<close> (so with
  \<open>count = limit + 1\<close>) the call never returns \<open>Allowed\<close> and returns \<open>RateLimited\<close>
  as soon as the TTL read that follows answers.
\<close>

theorem C2_strict_comparison:
  assumes "effectiveLimits config now user = Inr (limit, ws)"
    and "eval redis incrWithExpireScript [redisKey (user_id user) ws now] [showInt ws] s
           = (Inr (NumberReply count), s1)"
  shows "(count \<le> limit \<longrightarrow> checkRateLimit config redis now user s = (Inr Allowed, s1))
       \<and> (limit < count \<longrightarrow>
            fst (checkRateLimit config redis now user s) \<noteq> Inr Allowed
            \<and> (\<forall>t s2. ttl redis (redisKey (user_id user) ws now) s1 = (Inr t, s2) \<longrightarrow>
                  (\<exists>n. checkRateLimit config redis now user s = (Inr (RateLimited n), s2))))"
proof (intro conjI impI allI)
  assume "count \<le> limit"
  then show "checkRateLimit config redis now user s = (Inr Allowed, s1)"
    using assms by (simp add: checkRateLimit_resolved countAndDecide_allowed)
next
  assume over: "limit < count"
  have unf: "checkRateLimit config redis now user s =
     (case ttl redis (redisKey (user_id user) ws now) s1 of
        (Inl cause, s2) \<Rightarrow> (Inl (RedisError cause), s2)
      | (Inr t, s2) \<Rightarrow> (Inr (RateLimited (if 0 \<le> t then t else ws)), s2))"
    using assms over by (simp add: checkRateLimit_resolved countAndDecide_over)
  show "fst (checkRateLimit config redis now user s) \<noteq> Inr Allowed"
    unfolding unf by (simp split: prod.splits sum.splits)
  fix t s2
  assume "ttl redis (redisKey (user_id user) ws now) s1 = (Inr t, s2)"
  then show "\<exists>n. checkRateLimit config redis now user s = (Inr (RateLimited n), s2)"
    unfolding unf by simp
qed

text \<open>
  With limit 2: the call that sees count 2 is allowed, the call that sees count 3 is not.
\<close>

theorem C2_witness:
  "effectiveLimits rateLimitConfigData 0 u2 = Inr (2, 30)
   \<and> eval storeService incrWithExpireScript [redisKey (user_id u2) 30 0] [showInt 30]
        [''rate_limit:u2:0'' \<mapsto> (1, Some 30)]
        = (Inr (NumberReply 2), [''rate_limit:u2:0'' \<mapsto> (2, Some 30)])
   \<and> checkRateLimit rateLimitConfigData storeService 0 u2 [''rate_limit:u2:0'' \<mapsto> (1, Some 30)]
        = (Inr Allowed, [''rate_limit:u2:0'' \<mapsto> (2, Some 30)])
   \<and> eval storeService incrWithExpireScript [redisKey (user_id u2) 30 0] [showInt 30]
        [''rate_limit:u2:0'' \<mapsto> (2, Some 30)]
        = (Inr (NumberReply 3), [''rate_limit:u2:0'' \<mapsto> (3, Some 30)])
   \<and> ttl storeService (redisKey (user_id u2) 30 0) [''rate_limit:u2:0'' \<mapsto> (3, Some 30)]
        = (Inr 30, [''rate_limit:u2:0'' \<mapsto> (3, Some 30)])
   \<and> checkRateLimit rateLimitConfigData storeService 0 u2 [''rate_limit:u2:0'' \<mapsto> (2, Some 30)]
        = (Inr (RateLimited 30), [''rate_limit:u2:0'' \<mapsto> (3, Some 30)])"
proof -
  have eff: "effectiveLimits rateLimitConfigData 0 u2 = Inr (2, 30)"
    by (simp add: u2_eff)
  have e2: "eval storeService incrWithExpireScript [redisKey (user_id u2) 30 0] [showInt 30]
        [''rate_limit:u2:0'' \<mapsto> (1, Some 30)]
        = (Inr (NumberReply 2), [''rate_limit:u2:0'' \<mapsto> (2, Some 30)])"
    by (simp add: eval_defs u2_def)
  have e3: "eval storeService incrWithExpireScript [redisKey (user_id u2) 30 0] [showInt 30]
        [''rate_limit:u2:0'' \<mapsto> (2, Some 30)]
        = (Inr (NumberReply 3), [''rate_limit:u2:0'' \<mapsto> (3, Some 30)])"
    by (simp add: eval_defs u2_def)
  have t3: "ttl storeService (redisKey (user_id u2) 30 0) [''rate_limit:u2:0'' \<mapsto> (3, Some 30)]
        = (Inr 30, [''rate_limit:u2:0'' \<mapsto> (3, Some 30)])"
    by (simp add: eval_defs u2_def)
  have a: "checkRateLimit rateLimitConfigData storeService 0 u2 [''rate_limit:u2:0'' \<mapsto> (1, Some 30)]
        = (Inr Allowed, [''rate_limit:u2:0'' \<mapsto> (2, Some 30)])"
    using C2_strict_comparison [OF eff e2] by simp
  have "\<exists>n. checkRateLimit rateLimitConfigData storeService 0 u2 [''rate_limit:u2:0'' \<mapsto> (2, Some 30)]
        = (Inr (RateLimited n), [''rate_limit:u2:0'' \<mapsto> (3, Some 30)])"
    using C2_strict_comparison [OF eff e3] t3 by simp
  then have b: "checkRateLimit rateLimitConfigData storeService 0 u2 [''rate_limit:u2:0'' \<mapsto> (2, Some 30)]
        = (Inr (RateLimited 30), [''rate_limit:u2:0'' \<mapsto> (3, Some 30)])"
    by (simp add: eval_defs u2_def)
  show ?thesis using eff e2 e3 t3 a b by simp
qed

text \<open>
  Claim C4. On the over-limit path the call reads the TTL of the same key and returns
  \<open>RateLimited\<close> whose \<open>retryAfterSeconds\<close> is the TTL when it is at least 0, and
  \<open>windowSeconds\<close> when it is negative (the sentinels -2, key lost, and -1, no expiry).
\<close>

theorem C4_retry_after_from_ttl:
  assumes "effectiveLimits config now user = Inr (limit, ws)"
    and "eval redis incrWithExpireScript [redisKey (user_id user) ws now] [showInt ws] s
           = (Inr (NumberReply count), s1)"
    and "limit < count"
    and "ttl redis (redisKey (user_id user) ws now) s1 = (Inr t, s2)"
  shows "checkRateLimit config redis now user s
           = (Inr (RateLimited (if 0 \<le> t then t else ws)), s2)"
  using assms by (simp add: checkRateLimit_resolved countAndDecide_over)

text \<open>
  TTL 17 and TTL 0 are passed on; -1 (a key without expiry) and -2 (a key lost after the
  increment) give the window of 30 seconds.
\<close>

theorem C4_witness:
  "checkRateLimit rateLimitConfigData storeService 0 u2 [''rate_limit:u2:0'' \<mapsto> (2, Some 17)]
     = (Inr (RateLimited 17), [''rate_limit:u2:0'' \<mapsto> (3, Some 17)])
   \<and> checkRateLimit rateLimitConfigData storeService 0 u2 [''rate_limit:u2:0'' \<mapsto> (2, Some 0)]
     = (Inr (RateLimited 0), [''rate_limit:u2:0'' \<mapsto> (3, Some 0)])
   \<and> checkRateLimit rateLimitConfigData storeService 0 u2 [''rate_limit:u2:0'' \<mapsto> (2, None)]
     = (Inr (RateLimited 30), [''rate_limit:u2:0'' \<mapsto> (3, None)])
   \<and> checkRateLimit rateLimitConfigData lostKeyService 0 u2 [''rate_limit:u2:0'' \<mapsto> (2, Some 1)]
     = (Inr (RateLimited 30), Map.empty)"
proof -
  have eff: "effectiveLimits rateLimitConfigData 0 u2 = Inr (2, 30)"
    by (simp add: u2_eff)
  have ev: "eval storeService incrWithExpireScript [redisKey (user_id u2) 30 0] [showInt 30]
        [''rate_limit:u2:0'' \<mapsto> (2, x)]
        = (Inr (NumberReply 3), [''rate_limit:u2:0'' \<mapsto> (3, x)])" for x
    by (simp add: eval_defs u2_def)
  have ev': "eval lostKeyService incrWithExpireScript [redisKey (user_id u2) 30 0] [showInt 30]
        [''rate_limit:u2:0'' \<mapsto> (2, Some 1)]
        = (Inr (NumberReply 3), [''rate_limit:u2:0'' \<mapsto> (3, Some 1)])"
    by (simp add: eval_defs u2_def lostKeyService_def)
  have over: "(2::int) < 3" by simp
  have t17: "ttl storeService (redisKey (user_id u2) 30 0) [''rate_limit:u2:0'' \<mapsto> (3, Some 17)]
        = (Inr 17, [''rate_limit:u2:0'' \<mapsto> (3, Some 17)])"
    by (simp add: eval_defs u2_def)
  have t0: "ttl storeService (redisKey (user_id u2) 30 0) [''rate_limit:u2:0'' \<mapsto> (3, Some 0)]
        = (Inr 0, [''rate_limit:u2:0'' \<mapsto> (3, Some 0)])"
    by (simp add: eval_defs u2_def)
  have tn: "ttl storeService (redisKey (user_id u2) 30 0) [''rate_limit:u2:0'' \<mapsto> (3, None)]
        = (Inr (- 1), [''rate_limit:u2:0'' \<mapsto> (3, None)])"
    by (simp add: eval_defs u2_def)
  have tl: "ttl lostKeyService (redisKey (user_id u2) 30 0) [''rate_limit:u2:0'' \<mapsto> (3, Some 1)]
        = (Inr (- 2), Map.empty)"
    by (simp add: eval_defs u2_def lostKeyService_def)
  show ?thesis
    using C4_retry_after_from_ttl [OF eff ev over t17]
      C4_retry_after_from_ttl [OF eff ev over t0]
      C4_retry_after_from_ttl [OF eff ev over tn]
      C4_retry_after_from_ttl [OF eff ev' over tl]
    by simp
qed

text \<open>
  Claim C5. The key that the engine increments is
  \<open>"rate_limit:" + user.id + ":" + windowStart\<close> with
  \<open>windowStart = floor(floor(now / 1000) / windowSeconds) * windowSeconds\<close>: after a call
  against the counter server exactly that key is one higher and no other key has
  changed. For every \<open>\<delta>\<close> the keys at \<open>now\<close> and \<open>now + \<delta>\<close> are equal iff
  \<open>floor((now + \<delta>) / 1000 / windowSeconds) = floor(now / 1000 / windowSeconds)\<close>.
\<close>

theorem C5_key_derivation:
  assumes "effectiveLimits config now user = Inr (limit, ws)"
  shows "redisKey (user_id user) ws now
           = ''rate_limit:'' @ user_id user @ '':'' @ showInt (now div 1000 div ws * ws)
       \<and> counterAt (snd (checkRateLimit config storeService now user s))
            (redisKey (user_id user) ws now) = counterAt s (redisKey (user_id user) ws now) + 1
       \<and> dom (snd (checkRateLimit config storeService now user s))
            = insert (redisKey (user_id user) ws now) (dom s)
       \<and> (\<forall>k. k \<noteq> redisKey (user_id user) ws now \<longrightarrow>
             snd (checkRateLimit config storeService now user s) k = s k)
       \<and> (\<forall>\<delta>. redisKey (user_id user) ws now = redisKey (user_id user) ws (now + \<delta>)
             \<longleftrightarrow> \<lfloor>real_of_int (now + \<delta>) / 1000 / real_of_int ws\<rfloor>
                   = \<lfloor>real_of_int now / 1000 / real_of_int ws\<rfloor>)"
proof -
  have pos: "0 < ws" using assms by (rule effectiveLimits_window_pos)
  have k: "redisKey (user_id user) ws now
           = ''rate_limit:'' @ user_id user @ '':'' @ showInt (now div 1000 div ws * ws)"
    by (simp add: redisKey_def Let_def)
  have st: "snd (checkRateLimit config storeService now user s)
              = snd (incrWithExpire (redisKey (user_id user) ws now) ws s)"
    using assms by (simp add: checkRateLimit_resolved countAndDecide_store)
  have iff: "redisKey (user_id user) ws now = redisKey (user_id user) ws (now + \<delta>)
             \<longleftrightarrow> \<lfloor>real_of_int (now + \<delta>) / 1000 / real_of_int ws\<rfloor>
                   = \<lfloor>real_of_int now / 1000 / real_of_int ws\<rfloor>" for \<delta>
    using pos by (auto simp only: redisKey_eq_iff floor_nested [OF pos] mult_cancel_right)
  have c: "counterAt (snd (checkRateLimit config storeService now user s))
            (redisKey (user_id user) ws now) = counterAt s (redisKey (user_id user) ws now) + 1"
    unfolding st by (rule incrWithExpire_count)
  have d: "dom (snd (checkRateLimit config storeService now user s))
            = insert (redisKey (user_id user) ws now) (dom s)"
    unfolding st by (rule incrWithExpire_frame)
  have f: "\<forall>k. k \<noteq> redisKey (user_id user) ws now \<longrightarrow>
             snd (checkRateLimit config storeService now user s) k = s k"
    unfolding st by (simp add: incrWithExpire_frame)
  show ?thesis
    using k c d f iff by blast
qed

lemmas user_defs = u2_def noOverride_def withOverride_def

text \<open>
  At 61 s with a window of 30 s the key is that of second 60; 28.999 s later the key is
  the same, 29 s later it is not.
\<close>

theorem C5_witness:
  "effectiveLimits rateLimitConfigData 61000 u2 = Inr (2, 30)
   \<and> redisKey (user_id u2) 30 61000 = ''rate_limit:u2:60''
   \<and> dom (snd (checkRateLimit rateLimitConfigData storeService 61000 u2 Map.empty)) = {''rate_limit:u2:60''}
   \<and> redisKey (user_id u2) 30 61000 = redisKey (user_id u2) 30 (61000 + 28999)
   \<and> \<lfloor>real_of_int (61000 + 28999) / 1000 / real_of_int 30\<rfloor> = \<lfloor>real_of_int 61000 / 1000 / real_of_int 30\<rfloor>
   \<and> redisKey (user_id u2) 30 61000 \<noteq> redisKey (user_id u2) 30 (61000 + 29000)
   \<and> \<lfloor>real_of_int (61000 + 29000) / 1000 / real_of_int 30\<rfloor> \<noteq> \<lfloor>real_of_int 61000 / 1000 / real_of_int 30\<rfloor>"
proof -
  have eff: "effectiveLimits rateLimitConfigData 61000 u2 = Inr (2, 30)"
    by (simp add: u2_eff)
  note th = C5_key_derivation [OF eff, of Map.empty]
  have k: "redisKey (user_id u2) 30 61000 = ''rate_limit:u2:60''"
    by (simp add: eval_defs u2_def)
  have d: "dom (snd (checkRateLimit rateLimitConfigData storeService 61000 u2 Map.empty)) = {''rate_limit:u2:60''}"
    using th k by simp
  have same: "redisKey (user_id u2) 30 61000 = redisKey (user_id u2) 30 (61000 + 28999)"
    by (simp add: eval_defs u2_def)
  have diff: "redisKey (user_id u2) 30 61000 \<noteq> redisKey (user_id u2) 30 (61000 + 29000)"
    by (simp add: eval_defs u2_def)
  from th have iff: "redisKey (user_id u2) 30 61000 = redisKey (user_id u2) 30 (61000 + \<delta>)
             \<longleftrightarrow> \<lfloor>real_of_int (61000 + \<delta>) / 1000 / real_of_int 30\<rfloor>
                   = \<lfloor>real_of_int 61000 / 1000 / real_of_int 30\<rfloor>" for \<delta>
    by blast
  show ?thesis
    using eff k d same diff iff [of 28999] iff [of 29000] by blast
qed

section \<open>Limit resolution\<close>

lemma effectiveLimits_active:
  "overrideActive user now \<Longrightarrow> override_limit_requests user = Some r \<Longrightarrow>
   override_limit_window_seconds user = Some w \<Longrightarrow>
   effectiveLimits config now user =
     (if w \<le> 0 then Inl (RateLimitConfigError (''Invalid windowSeconds: '' @ showInt w))
      else Inr (r, w))"
  by (simp add: effectiveLimits_def)

lemma effectiveLimits_inactive:
  "\<not> overrideActive user now \<Longrightarrow>
   effectiveLimits config now user =
     (case lookupTier config (tier user) of
        Undefined \<Rightarrow> Inl (RateLimitConfigError (''Config missing for tier '' @ tier user))
      | Inherited \<Rightarrow> Inl (Defect (TypeError ''windowSeconds.toString''))
      | Entry tierConfig \<Rightarrow>
          if windowSeconds tierConfig \<le> 0
          then Inl (RateLimitConfigError
                 (''Invalid windowSeconds: '' @ showInt (windowSeconds tierConfig)))
          else Inr (requests tierConfig, windowSeconds tierConfig))"
  by (simp add: effectiveLimits_def split: tier_lookup.splits)

lemma lookupTier_entry: "config t = Some tierConfig \<Longrightarrow> lookupTier config t = Entry tierConfig"
  by (simp add: lookupTier_def)

lemma lookupTier_own_names:
  "t \<notin> set objectPrototypeNames \<Longrightarrow>
   lookupTier config t = (case config t of None \<Rightarrow> Undefined | Some tierConfig \<Rightarrow> Entry tierConfig)"
  by (simp add: lookupTier_def split: option.splits)

lemma overrideActive_cleared:
  "\<not> overrideActive (user\<lparr>override_limit_requests := None,
       override_limit_window_seconds := None, override_limit_expiry := None\<rparr>) now"
  by (simp add: overrideActive_def)

text \<open>
  Claim C3. The override is active iff all three override fields are present and the
  expiry is later than the one clock reading of the call. When it is active the call
  runs with the override's limit and window. When a field is missing or the expiry is
  not later than now, the call runs with the tier's configured values, and it behaves as
  for the same user with no override fields at all: a partial or expired override causes
  no error.
\<close>

theorem C3_override_resolution:
  "(overrideActive user now \<longleftrightarrow>
      (\<exists>r w e. override_limit_requests user = Some r
         \<and> override_limit_window_seconds user = Some w
         \<and> override_limit_expiry user = Some (Date e) \<and> now < e))
   \<and> (\<forall>r w. overrideActive user now \<and> override_limit_requests user = Some r
         \<and> override_limit_window_seconds user = Some w \<longrightarrow>
         checkRateLimit config redis now user s =
           (if w \<le> 0
            then (Inl (RateLimitConfigError (''Invalid windowSeconds: '' @ showInt w)), s)
            else countAndDecide redis (user_id user) r w now s))
   \<and> (\<not> overrideActive user now \<longrightarrow>
         checkRateLimit config redis now user s =
           checkRateLimit config redis now
             (user\<lparr>override_limit_requests := None, override_limit_window_seconds := None,
                   override_limit_expiry := None\<rparr>) s
         \<and> (\<forall>tierConfig. config (tier user) = Some tierConfig \<longrightarrow>
               checkRateLimit config redis now user s =
                 (if windowSeconds tierConfig \<le> 0
                  then (Inl (RateLimitConfigError
                          (''Invalid windowSeconds: '' @ showInt (windowSeconds tierConfig))), s)
                  else countAndDecide redis (user_id user) (requests tierConfig)
                         (windowSeconds tierConfig) now s)))"
proof (intro conjI allI impI)
  show "overrideActive user now \<longleftrightarrow>
      (\<exists>r w e. override_limit_requests user = Some r
         \<and> override_limit_window_seconds user = Some w
         \<and> override_limit_expiry user = Some (Date e) \<and> now < e)"
  proof (cases "override_limit_expiry user")
    case None
    then show ?thesis by (simp add: overrideActive_def)
  next
    case (Some d)
    then show ?thesis by (cases d) (auto simp: overrideActive_def)
  qed
next
  fix r w
  assume "overrideActive user now \<and> override_limit_requests user = Some r
         \<and> override_limit_window_seconds user = Some w"
  then show "checkRateLimit config redis now user s =
           (if w \<le> 0
            then (Inl (RateLimitConfigError (''Invalid windowSeconds: '' @ showInt w)), s)
            else countAndDecide redis (user_id user) r w now s)"
    by (simp add: checkRateLimit_def effectiveLimits_active)
next
  assume "\<not> overrideActive user now"
  then show "checkRateLimit config redis now user s =
           checkRateLimit config redis now
             (user\<lparr>override_limit_requests := None, override_limit_window_seconds := None,
                   override_limit_expiry := None\<rparr>) s"
    by (simp add: checkRateLimit_def effectiveLimits_inactive overrideActive_cleared
          split: tier_lookup.splits)
next
  fix tierConfig
  assume "\<not> overrideActive user now" and "config (tier user) = Some tierConfig"
  then show "checkRateLimit config redis now user s =
                 (if windowSeconds tierConfig \<le> 0
                  then (Inl (RateLimitConfigError
                          (''Invalid windowSeconds: '' @ showInt (windowSeconds tierConfig))), s)
                  else countAndDecide redis (user_id user) (requests tierConfig)
                         (windowSeconds tierConfig) now s)"
    by (simp add: checkRateLimit_def effectiveLimits_inactive lookupTier_entry)
qed

lemmas run_defs = eval_defs user_defs

text \<open>
  The override of \<open>u2\<close> (2 per 30 s) is used before its expiry; at the instant of expiry,
  and when the expiry is missing, the free tier's 10 per 60 s are used.
\<close>

theorem C3_witness:
  "overrideActive u2 0
   \<and> checkRateLimit rateLimitConfigData storeService 0 u2 Map.empty
        = (Inr Allowed, [''rate_limit:u2:0'' \<mapsto> (1, Some 30)])
   \<and> \<not> overrideActive u2 300000
   \<and> checkRateLimit rateLimitConfigData storeService 300000 u2 Map.empty
        = checkRateLimit rateLimitConfigData storeService 300000 (noOverride ''u2'' ''free'') Map.empty
   \<and> checkRateLimit rateLimitConfigData storeService 300000 u2 Map.empty
        = (Inr Allowed, [''rate_limit:u2:300'' \<mapsto> (1, Some 60)])
   \<and> \<not> overrideActive (u2\<lparr>override_limit_expiry := None\<rparr>) 0
   \<and> checkRateLimit rateLimitConfigData storeService 0 (u2\<lparr>override_limit_expiry := None\<rparr>) Map.empty
        = (Inr Allowed, [''rate_limit:u2:0'' \<mapsto> (1, Some 60)])"
proof -
  have a: "overrideActive u2 0" and na: "\<not> overrideActive u2 300000"
    and np: "\<not> overrideActive (u2\<lparr>override_limit_expiry := None\<rparr>) 0"
    by (simp_all add: overrideActive_def u2_def)
  have f: "override_limit_requests u2 = Some 2" "override_limit_window_seconds u2 = Some 30"
    by (simp_all add: u2_def)
  have t: "rateLimitConfigData (tier u2) = Some \<lparr>requests = 10, windowSeconds = 60\<rparr>"
    "rateLimitConfigData (tier (u2\<lparr>override_limit_expiry := None\<rparr>))
       = Some \<lparr>requests = 10, windowSeconds = 60\<rparr>"
    by (simp_all add: u2_def rateLimitConfigData_def)
  have clean: "u2\<lparr>override_limit_requests := None, override_limit_window_seconds := None,
                   override_limit_expiry := None\<rparr> = noOverride ''u2'' ''free''"
    by (simp add: user_defs)
  have c1: "countAndDecide storeService (user_id u2) 2 30 0 Map.empty
              = (Inr Allowed, [''rate_limit:u2:0'' \<mapsto> (1, Some 30)])"
    by (simp add: run_defs)
  have c2: "countAndDecide storeService (user_id u2) 10 60 300000 Map.empty
              = (Inr Allowed, [''rate_limit:u2:300'' \<mapsto> (1, Some 60)])"
    by (simp add: run_defs)
  have c3: "countAndDecide storeService (user_id (u2\<lparr>override_limit_expiry := None\<rparr>)) 10 60 0 Map.empty
              = (Inr Allowed, [''rate_limit:u2:0'' \<mapsto> (1, Some 60)])"
    by (simp add: run_defs)
  note th1 = C3_override_resolution [of u2 0 rateLimitConfigData storeService Map.empty]
  note th2 = C3_override_resolution [of u2 300000 rateLimitConfigData storeService Map.empty]
  note th3 = C3_override_resolution [of "u2\<lparr>override_limit_expiry := None\<rparr>" 0
      rateLimitConfigData storeService Map.empty]
  have "checkRateLimit rateLimitConfigData storeService 0 u2 Map.empty
        = (if (30::int) \<le> 0
           then (Inl (RateLimitConfigError (''Invalid windowSeconds: '' @ showInt 30)), Map.empty)
           else countAndDecide storeService (user_id u2) 2 30 0 Map.empty)"
    using th1 a f by blast
  then have r1: "checkRateLimit rateLimitConfigData storeService 0 u2 Map.empty
        = (Inr Allowed, [''rate_limit:u2:0'' \<mapsto> (1, Some 30)])"
    using c1 by simp
  have r2: "checkRateLimit rateLimitConfigData storeService 300000 u2 Map.empty
        = checkRateLimit rateLimitConfigData storeService 300000 (noOverride ''u2'' ''free'') Map.empty"
    using th2 na unfolding clean by blast
  have "checkRateLimit rateLimitConfigData storeService 300000 u2 Map.empty
        = (if windowSeconds \<lparr>requests = 10, windowSeconds = 60\<rparr> \<le> 0
           then (Inl (RateLimitConfigError (''Invalid windowSeconds: ''
                   @ showInt (windowSeconds \<lparr>requests = 10, windowSeconds = 60\<rparr>))), Map.empty)
           else countAndDecide storeService (user_id u2) (requests \<lparr>requests = 10, windowSeconds = 60\<rparr>)
                  (windowSeconds \<lparr>requests = 10, windowSeconds = 60\<rparr>) 300000 Map.empty)"
    using th2 na t(1) by blast
  then have r3: "checkRateLimit rateLimitConfigData storeService 300000 u2 Map.empty
        = (Inr Allowed, [''rate_limit:u2:300'' \<mapsto> (1, Some 60)])"
    using c2 by simp
  have "checkRateLimit rateLimitConfigData storeService 0 (u2\<lparr>override_limit_expiry := None\<rparr>) Map.empty
        = (if windowSeconds \<lparr>requests = 10, windowSeconds = 60\<rparr> \<le> 0
           then (Inl (RateLimitConfigError (''Invalid windowSeconds: ''
                   @ showInt (windowSeconds \<lparr>requests = 10, windowSeconds = 60\<rparr>))), Map.empty)
           else countAndDecide storeService (user_id (u2\<lparr>override_limit_expiry := None\<rparr>))
                  (requests \<lparr>requests = 10, windowSeconds = 60\<rparr>)
                  (windowSeconds \<lparr>requests = 10, windowSeconds = 60\<rparr>) 0 Map.empty)"
    using th3 np t(2) by blast
  then have r4: "checkRateLimit rateLimitConfigData storeService 0 (u2\<lparr>override_limit_expiry := None\<rparr>) Map.empty
        = (Inr Allowed, [''rate_limit:u2:0'' \<mapsto> (1, Some 60)])"
    using c3 by simp
  show ?thesis using a na np r1 r2 r3 r4 by simp
qed

lemma reason_distinct:
  "''Invalid windowSeconds: '' @ x \<noteq> ''Config missing for tier '' @ y"
  by simp

lemma countAndDecide_not_config_error:
  "fst (countAndDecide redis uid limit ws now s) \<noteq> Inl (RateLimitConfigError r)"
  by (simp add: countAndDecide_def Let_def split: prod.splits sum.splits eval_reply.splits)

text \<open>
  Claim C6 as stated fails: an active override with \<open>override_limit_requests = 0\<close> passes
  limit resolution with limit 0, and the call goes on to Redis.
\<close>

theorem C6_counterexample:
  "effectiveLimits rateLimitConfigData 0 (withOverride ''u0'' ''free'' 0 60 (Date 300000)) = Inr (0, 60)
   \<and> checkRateLimit rateLimitConfigData storeService 0
        (withOverride ''u0'' ''free'' 0 60 (Date 300000)) Map.empty
        = (Inr (RateLimited 60), [''rate_limit:u0:0'' \<mapsto> (1, Some 60)])
   \<and> \<not> 0 < (case effectiveLimits rateLimitConfigData 0
                   (withOverride ''u0'' ''free'' 0 60 (Date 300000)) of
                Inr (limit, ws) \<Rightarrow> limit | Inl e \<Rightarrow> 1)"
  by (simp add: run_defs)

text \<open>
  A tier that is a name of \<open>Object.prototype\<close> and not an entry: the call dies, with
  Redis untouched.
\<close>

lemma checkRateLimit_inherited_tier:
  "checkRateLimit rateLimitConfigData storeService 0 (noOverride ''u5'' ''toString'') Map.empty
     = (Inl (Defect (TypeError ''windowSeconds.toString'')), Map.empty)"
  by (simp add: run_defs)

text \<open>
  Claim C6, amended. For a tier that is not a name the registry object inherits from
  \<open>Object.prototype\<close>, the call fails with the configuration error
  \<open>Config missing for tier <t>\<close> exactly when no override is active and the tier has no
  entry in the registry. The call fails with the configuration error whose reason is
  \<open>Invalid windowSeconds: <n>\<close> when the effective \<open>windowSeconds\<close> is at most 0, from
  the override or from the tier's entry. Whenever limit resolution gives a limit and a
  window, the window is positive. The limit is not checked: an active override with a
  positive window passes resolution with its \<open>override_limit_requests\<close>, whatever the
  number, positive or not.
\<close>

theorem C6_config_errors:
  "(tier user \<notin> set objectPrototypeNames \<longrightarrow>
      (fst (checkRateLimit config redis now user s)
          = Inl (RateLimitConfigError (''Config missing for tier '' @ tier user))
        \<longleftrightarrow> \<not> overrideActive user now \<and> config (tier user) = None))
   \<and> (\<forall>w. overrideActive user now \<and> override_limit_window_seconds user = Some w \<and> w \<le> 0 \<longrightarrow>
         checkRateLimit config redis now user s
           = (Inl (RateLimitConfigError (''Invalid windowSeconds: '' @ showInt w)), s))
   \<and> (\<forall>tierConfig. \<not> overrideActive user now \<and> config (tier user) = Some tierConfig
           \<and> windowSeconds tierConfig \<le> 0 \<longrightarrow>
         checkRateLimit config redis now user s
           = (Inl (RateLimitConfigError
                (''Invalid windowSeconds: '' @ showInt (windowSeconds tierConfig))), s))
   \<and> (\<forall>limit ws. effectiveLimits config now user = Inr (limit, ws) \<longrightarrow> 0 < ws)
   \<and> (\<forall>r w. overrideActive user now \<and> override_limit_requests user = Some r
           \<and> override_limit_window_seconds user = Some w \<and> 0 < w \<longrightarrow>
         effectiveLimits config now user = Inr (r, w))"
proof (intro conjI allI impI)
  assume own: "tier user \<notin> set objectPrototypeNames"
  show "fst (checkRateLimit config redis now user s)
        = Inl (RateLimitConfigError (''Config missing for tier '' @ tier user))
      \<longleftrightarrow> \<not> overrideActive user now \<and> config (tier user) = None"
  proof (cases "overrideActive user now")
    case True
    then obtain r w where "override_limit_requests user = Some r"
      "override_limit_window_seconds user = Some w"
      by (auto simp: overrideActive_def)
    with True show ?thesis
      by (simp add: checkRateLimit_def effectiveLimits_active countAndDecide_not_config_error)
  next
    case False
    then show ?thesis
      by (simp add: checkRateLimit_def effectiveLimits_inactive lookupTier_own_names [OF own]
            countAndDecide_not_config_error split: option.splits)
  qed
next
  fix w
  assume "overrideActive user now \<and> override_limit_window_seconds user = Some w \<and> w \<le> 0"
  moreover from this obtain r where "override_limit_requests user = Some r"
    by (auto simp: overrideActive_def)
  ultimately show "checkRateLimit config redis now user s
           = (Inl (RateLimitConfigError (''Invalid windowSeconds: '' @ showInt w)), s)"
    by (simp add: checkRateLimit_def effectiveLimits_active)
next
  fix tierConfig
  assume "\<not> overrideActive user now \<and> config (tier user) = Some tierConfig
           \<and> windowSeconds tierConfig \<le> 0"
  then show "checkRateLimit config redis now user s
           = (Inl (RateLimitConfigError
                (''Invalid windowSeconds: '' @ showInt (windowSeconds tierConfig))), s)"
    by (simp add: checkRateLimit_def effectiveLimits_inactive lookupTier_entry)
next
  fix limit ws
  assume "effectiveLimits config now user = Inr (limit, ws)"
  then show "0 < ws" by (rule effectiveLimits_window_pos)
next
  fix r w
  assume "overrideActive user now \<and> override_limit_requests user = Some r
           \<and> override_limit_window_seconds user = Some w \<and> 0 < w"
  then show "effectiveLimits config now user = Inr (r, w)"
    by (simp add: effectiveLimits_active)
qed

text \<open>
  A tier without entry, an override with window 0, a tier with window -5, a resolution
  that succeeds, and an override of -3 requests that passes resolution.
\<close>

theorem C6_witness:
  "''gold'' \<notin> set objectPrototypeNames
   \<and> \<not> overrideActive (noOverride ''u9'' ''gold'') 0
   \<and> rateLimitConfigData (tier (noOverride ''u9'' ''gold'')) = None
   \<and> fst (checkRateLimit rateLimitConfigData storeService 0 (noOverride ''u9'' ''gold'') Map.empty)
        = Inl (RateLimitConfigError ''Config missing for tier gold'')
   \<and> overrideActive (withOverride ''u8'' ''free'' 5 0 (Date 300000)) 0
   \<and> checkRateLimit rateLimitConfigData storeService 0
        (withOverride ''u8'' ''free'' 5 0 (Date 300000)) Map.empty
        = (Inl (RateLimitConfigError ''Invalid windowSeconds: 0''), Map.empty)
   \<and> checkRateLimit [''free'' \<mapsto> \<lparr>requests = 10, windowSeconds = - 5\<rparr>] storeService 0
        (noOverride ''u1'' ''free'') Map.empty
        = (Inl (RateLimitConfigError ''Invalid windowSeconds: -5''), Map.empty)
   \<and> effectiveLimits rateLimitConfigData 0 u2 = Inr (2, 30) \<and> (0::int) < 30
   \<and> overrideActive (withOverride ''u6'' ''free'' (- 3) 60 (Date 300000)) 0
   \<and> effectiveLimits rateLimitConfigData 0 (withOverride ''u6'' ''free'' (- 3) 60 (Date 300000))
        = Inr (- 3, 60)"
proof -
  note th1 = C6_config_errors [of "noOverride ''u9'' ''gold''" rateLimitConfigData storeService 0 Map.empty]
  note th2 = C6_config_errors [of "withOverride ''u8'' ''free'' 5 0 (Date 300000)"
      rateLimitConfigData storeService 0 Map.empty]
  note th3 = C6_config_errors [of "noOverride ''u1'' ''free''"
      "[''free'' \<mapsto> \<lparr>requests = 10, windowSeconds = - 5\<rparr>]" storeService 0 Map.empty]
  note th4 = C6_config_errors [of u2 rateLimitConfigData storeService 0 Map.empty]
  note th5 = C6_config_errors [of "withOverride ''u6'' ''free'' (- 3) 60 (Date 300000)"
      rateLimitConfigData storeService 0 Map.empty]
  have a0: "tier (noOverride ''u9'' ''gold'') \<notin> set objectPrototypeNames"
    and a0': "''gold'' \<notin> set objectPrototypeNames"
    and a1: "\<not> overrideActive (noOverride ''u9'' ''gold'') 0"
    and a2: "rateLimitConfigData (tier (noOverride ''u9'' ''gold'')) = None"
    and a3: "overrideActive (withOverride ''u8'' ''free'' 5 0 (Date 300000)) 0"
    and a4: "override_limit_window_seconds (withOverride ''u8'' ''free'' 5 0 (Date 300000)) = Some 0"
    and a5: "\<not> overrideActive (noOverride ''u1'' ''free'') 0"
    and a6: "[''free'' \<mapsto> \<lparr>requests = 10, windowSeconds = - 5\<rparr>] (tier (noOverride ''u1'' ''free''))
               = Some \<lparr>requests = 10, windowSeconds = - 5\<rparr>"
    and a7: "overrideActive (withOverride ''u6'' ''free'' (- 3) 60 (Date 300000)) 0"
    and a8: "override_limit_requests (withOverride ''u6'' ''free'' (- 3) 60 (Date 300000)) = Some (- 3)"
    and a9: "override_limit_window_seconds (withOverride ''u6'' ''free'' (- 3) 60 (Date 300000)) = Some 60"
    by (simp_all add: overrideActive_def user_defs rateLimitConfigData_def objectPrototypeNames_def)
  have s0: "showInt 0 = ''0''" and s5: "showInt (- 5) = ''-5''"
    by (simp_all add: showInt_def showNat.simps digitChar_def)
  have t: "tier (noOverride ''u9'' ''gold'') = ''gold''" by (simp add: user_defs)
  have r1: "fst (checkRateLimit rateLimitConfigData storeService 0 (noOverride ''u9'' ''gold'') Map.empty)
        = Inl (RateLimitConfigError ''Config missing for tier gold'')"
    using th1 a0 a1 a2 t by simp
  have r2: "checkRateLimit rateLimitConfigData storeService 0
        (withOverride ''u8'' ''free'' 5 0 (Date 300000)) Map.empty
        = (Inl (RateLimitConfigError ''Invalid windowSeconds: 0''), Map.empty)"
    using th2 a3 a4 s0 by simp
  have r3: "checkRateLimit [''free'' \<mapsto> \<lparr>requests = 10, windowSeconds = - 5\<rparr>] storeService 0
        (noOverride ''u1'' ''free'') Map.empty
        = (Inl (RateLimitConfigError ''Invalid windowSeconds: -5''), Map.empty)"
    using th3 a5 a6 s5 by simp
  have e: "effectiveLimits rateLimitConfigData 0 u2 = Inr (2, 30)" by (simp add: u2_eff)
  have r4: "(0::int) < 30" using th4 e by blast
  have r5: "effectiveLimits rateLimitConfigData 0 (withOverride ''u6'' ''free'' (- 3) 60 (Date 300000))
        = Inr (- 3, 60)"
    using th5 a7 a8 a9 by simp
  show ?thesis using a0' a1 a2 a3 r1 r2 r3 e r4 a7 r5 by simp
qed

text \<open>
  Claim C10. For a user whose override is active at the clock reading of the call, the
  call does not depend on the tier registry: it gives the same result with any other
  registry, it never fails with \<open>Config missing for tier\<close>, and with a positive
  override window and the counter server it returns a decision even with the empty
  registry.
\<close>

theorem C10_active_override_ignores_config:
  assumes "overrideActive user now"
  shows "checkRateLimit config redis now user s = checkRateLimit config' redis now user s
     \<and> (\<forall>t. fst (checkRateLimit config redis now user s)
              \<noteq> Inl (RateLimitConfigError (''Config missing for tier '' @ t)))
     \<and> (\<forall>w st. override_limit_window_seconds user = Some w \<and> 0 < w \<longrightarrow>
           (\<exists>d. fst (checkRateLimit Map.empty storeService now user st) = Inr d))"
proof -
  obtain r w where rw: "override_limit_requests user = Some r"
      "override_limit_window_seconds user = Some w"
    using assms by (auto simp: overrideActive_def)
  have eff: "effectiveLimits c now user =
     (if w \<le> 0 then Inl (RateLimitConfigError (''Invalid windowSeconds: '' @ showInt w))
      else Inr (r, w))" for c
    using assms rw by (rule effectiveLimits_active)
  have indep: "checkRateLimit config redis now user s = checkRateLimit config' redis now user s"
    by (simp add: checkRateLimit_def eff)
  have nomissing: "fst (checkRateLimit config redis now user s)
              \<noteq> Inl (RateLimitConfigError (''Config missing for tier '' @ t))" for t
    by (simp add: checkRateLimit_def eff countAndDecide_not_config_error)
  have decision: "\<exists>d. fst (checkRateLimit Map.empty storeService now user st) = Inr d"
    if "override_limit_window_seconds user = Some w'" "0 < w'" for w' st
  proof -
    from that rw have "0 < w" by simp
    then show ?thesis
      by (simp add: checkRateLimit_def eff countAndDecide_store)
  qed
  show ?thesis using indep nomissing decision by blast
qed

text \<open>
  A user of the unknown tier \<open>gold\<close> with an active override is allowed.
\<close>

theorem C10_witness:
  "overrideActive (withOverride ''u7'' ''gold'' 2 30 (Date 300000)) 0
   \<and> rateLimitConfigData (tier (withOverride ''u7'' ''gold'' 2 30 (Date 300000))) = None
   \<and> checkRateLimit rateLimitConfigData storeService 0
        (withOverride ''u7'' ''gold'' 2 30 (Date 300000)) Map.empty
      = checkRateLimit Map.empty storeService 0
        (withOverride ''u7'' ''gold'' 2 30 (Date 300000)) Map.empty
   \<and> checkRateLimit rateLimitConfigData storeService 0
        (withOverride ''u7'' ''gold'' 2 30 (Date 300000)) Map.empty
      = (Inr Allowed, [''rate_limit:u7:0'' \<mapsto> (1, Some 30)])"
proof -
  have a: "overrideActive (withOverride ''u7'' ''gold'' 2 30 (Date 300000)) 0"
    by (simp add: overrideActive_def user_defs)
  have n: "rateLimitConfigData (tier (withOverride ''u7'' ''gold'' 2 30 (Date 300000))) = None"
    by (simp add: user_defs rateLimitConfigData_def)
  have i: "checkRateLimit rateLimitConfigData storeService 0
        (withOverride ''u7'' ''gold'' 2 30 (Date 300000)) Map.empty
      = checkRateLimit Map.empty storeService 0
        (withOverride ''u7'' ''gold'' 2 30 (Date 300000)) Map.empty"
    using C10_active_override_ignores_config [OF a, of rateLimitConfigData storeService Map.empty Map.empty]
    by blast
  have v: "checkRateLimit Map.empty storeService 0
        (withOverride ''u7'' ''gold'' 2 30 (Date 300000)) Map.empty
      = (Inr Allowed, [''rate_limit:u7:0'' \<mapsto> (1, Some 30)])"
    by (simp add: run_defs)
  show ?thesis using a n i v by simp
qed

section \<open>The HTTP surface\<close>

lemmas handler_defs = checkRateLimitHandler_def checkRateLimitHandler_gen_def castUser_def
  plainRow_def overrideRow_def downService_def

text \<open>
  A row whose expiry column holds a string: the handler of GET /api/check dies before
  the registry and Redis are used.
\<close>

lemma checkRateLimitHandler_expiry_row_dies:
  "checkRateLimitHandler rateLimitConfigData storeService 0 ''u2''
     (Resolved (Some (overrideRow ''u2'' ''free'' 2 30 ''2030-01-01T00:00:00+00:00'')) None) Map.empty
   = (Died (TypeError ''user.override_limit_expiry.getTime''), Map.empty)"
  by (simp add: handler_defs)

lemma foldl_setColumn_updateData:
  "foldl setColumn (row, u) (updateData b nowIso) = (patchedRow b row, nowIso)"
  by (cases "override_limit_requests b"; cases "override_limit_window_seconds b";
      cases "override_limit_expiry b")
     (simp_all add: updateData_def patchedRow_def)

text \<open>
  The handler of PUT called with a query object of its own, which no request to the
  endpoint supplies: nothing checks the sign of the numbers, the row is patched with
  every supplied field and the handler returns the new columns.
\<close>

lemma updateUserRateLimitHandler_with_query:
  assumes "t userId = Some (row, u)"
  shows "updateUserRateLimitHandler tableUpdate b (Some userId) nowIso t
     = (Returned (JObj [(''success'', JBool True), (''userId'', JStr userId),
                        (''updated'', updatedObject (patchedRow b row))]),
        t(userId \<mapsto> (patchedRow b row, nowIso)))"
  using assms
  by (simp add: updateUserRateLimitHandler_def updateUserRateLimitHandler_gen_def tableUpdate_def
        foldl_setColumn_updateData updatedObject_def Let_def patchedRow_def)


text \<open>
  Claim C8. No error is mapped to the response the claim names. On GET /api/check a
  user id without a row, a rejected user query, a tier without entry and an unreachable
  Redis each reach their \<open>catchTags\<close> branch, the branch throws while it builds the
  response, and the handler dies: no 404 and no 500 with an \<open>{error: ...}\<close> body is
  answered. The branches of GET /rate-limit-stats and of PUT /users/:userId/rate-limits
  throw in the same way.
\<close>

theorem C8_error_branches_die:
  "checkRateLimitHandler rateLimitConfigData storeService 0 ''0e635e78-fee6-43be-9556-1bfb3d169ec7''
       (Resolved None None) Map.empty
     = (Died (TypeError ''Http.response.notFound''), Map.empty)
   \<and> checkRateLimitHandler rateLimitConfigData storeService 0 ''0e635e78-fee6-43be-9556-1bfb3d169ec7''
       (Rejected ''timeout'') Map.empty
     = (Died (TypeError ''Http.response.internalServerError''), Map.empty)
   \<and> checkRateLimitHandler rateLimitConfigData storeService 0 ''u9''
       (Resolved (Some (plainRow ''u9'' ''gold'')) None) Map.empty
     = (Died (TypeError ''Http.response.internalServerError''), Map.empty)
   \<and> checkRateLimitHandler rateLimitConfigData downService 0 ''u1''
       (Resolved (Some (plainRow ''u1'' ''free'')) None) Map.empty
     = (Died (TypeError ''Http.response.internalServerError''), Map.empty)
   \<and> testCombinedLogicHandler_catchTags
       (NotFoundError ''User 0e635e78-fee6-43be-9556-1bfb3d169ec7 not found'')
     = TypeError ''Http.response.notFound''
   \<and> testCombinedLogicHandler_catchTags (SupabaseError ''timeout'')
     = TypeError ''Http.response.internalServerError''
   \<and> testCombinedLogicHandler_catchTags (LimiterError (RedisError ''ECONNREFUSED''))
     = TypeError ''Http.response.internalServerError''
   \<and> testCombinedLogicHandler_catchTags
       (LimiterError (RateLimitConfigError ''Config missing for tier gold''))
     = TypeError ''Http.response.internalServerError''
   \<and> updateUserRateLimitHandler_catchTags
       (NotFoundError ''User 0e635e78-fee6-43be-9556-1bfb3d169ec7 not found'')
     = TypeError ''Http.response.notFound''
   \<and> updateUserRateLimitHandler_catchTags (SupabaseError ''timeout'')
     = TypeError ''Http.response.internalServerError''"
  by (simp add: handler_defs run_defs)

text \<open>
  Claim C9. For a free-tier user whose row has no override, with the counter of the
  bucket at the limit of 10 and 17 seconds left, the handler of GET /api/check returns
  the object \<open>{statusCode: 429, status: "NOT ALLOWED", RetryAfter: "17"}\<close>, and nothing
  else: it is the value of the success response, and it carries no headers and no
  response status beside the \<open>statusCode\<close> field of the body.
\<close>

theorem C9_rate_limited_return_value:
  "checkRateLimitHandler rateLimitConfigData storeService 0 ''u1''
     (Resolved (Some (plainRow ''u1'' ''free'')) None)
     [''rate_limit:u1:0'' \<mapsto> (10, Some 17)]
   = (Returned (JObj [(''statusCode'', JNum 429), (''status'', JStr ''NOT ALLOWED''),
                      (''RetryAfter'', JStr ''17'')]),
      [''rate_limit:u1:0'' \<mapsto> (11, Some 17)])"
  by (simp add: handler_defs run_defs)

end
